theory Spec2Isabelle
  imports Main
begin

section \<open>SimpleVector: a shallow embedding of \<^verbatim>\<open>src/include/simple_vector.h\<close>\<close>

text \<open>
  The class template \<^verbatim>\<open>SimpleVector<Type>\<close> keeps an owned buffer \<^verbatim>\<open>items_\<close> and two
  counters \<^verbatim>\<open>size_\<close> and \<^verbatim>\<open>capacity_\<close>. The model keeps the three members apart: the
  buffer is the list of all allocated slots (its length is the allocated length, the null
  buffer is the empty list), and the counters are natural numbers. Nothing in the model
  ties \<^verbatim>\<open>capacity_\<close> to the length of the buffer; whether they agree is a property of the
  code.

  Modelling decisions:
  \<^item> Isabelle does not accept names ending in an underscore, so the members \<^verbatim>\<open>items_\<close>,
    \<^verbatim>\<open>size_\<close>, \<^verbatim>\<open>capacity_\<close> are the fields \<open>m_items\<close>, \<open>m_size\<close>, \<open>m_capacity\<close>.
  \<^item> A \<^verbatim>\<open>size_t\<close> is a \<open>nat\<close> below \<open>2^64\<close>. Where the source computes a new
    \<^verbatim>\<open>size_t\<close> (\<^verbatim>\<open>capacity_ * 2\<close>, \<^verbatim>\<open>size_ + 1\<close>) the model reduces the result modulo
    \<open>2^64\<close> (\<open>size_t\<close>). The \<^verbatim>\<open>int dist\<close> of \<^verbatim>\<open>Insert\<close> is a 32-bit two's complement
    integer: the distance is narrowed to it (\<open>int32\<close>), and converted back where the
    source passes it on as a \<^verbatim>\<open>size_t\<close> (\<open>size_t_of_int\<close>).
  \<^item> The doubling loop of \<^verbatim>\<open>Resize\<close> need not terminate on 64-bit counters. It is a
    partial function, and every operation that calls \<^verbatim>\<open>Resize\<close> returns an \<open>option\<close>:
    \<open>None\<close> is a call that never returns.
  \<^item> Allocation is assumed to succeed, whatever the requested length.
  \<^item> \<^verbatim>\<open>Type()\<close>, the value-initialised element, is the parameter \<open>dflt\<close> of every operation
    that uses it.
  \<^item> Moving an element assigns its value to the destination. What it leaves in the
    source is the parameter \<open>moved\<close> of move assignment (the identity for \<^verbatim>\<open>int\<close>, the empty
    string for \<^verbatim>\<open>std::string\<close>), the one operation whose moved-from elements are live
    afterwards. \<^verbatim>\<open>Resize\<close> and \<^verbatim>\<open>Reserve\<close> destroy the buffer they moved from, \<^verbatim>\<open>Insert\<close>
    assigns to every slot it moved from before it returns, and \<^verbatim>\<open>Erase\<close> moves from slots
    that are dead or assigned to again; there the source slot keeps its value.
  \<^item> An iterator is the offset of the pointer from \<^verbatim>\<open>begin()\<close>.
  \<^item> \<^verbatim>\<open>assert\<close> is modelled as compiled in: a failed assertion is the error
    \<open>AssertionFailed\<close>. The exception of \<^verbatim>\<open>At\<close> is the error \<open>OutOfRange\<close>. A read or a
    write outside the allocated buffer, and a call with an iterator outside
    \<^verbatim>\<open>[begin(), end()]\<close>, have undefined behaviour in C++; the model makes them the
    error \<open>UndefinedBehaviour\<close> instead of inventing a result.
\<close>

datatype error = OutOfRange | AssertionFailed | UndefinedBehaviour

text \<open>The result of \<^verbatim>\<open>size_t\<close> arithmetic: 64 bits, unsigned, wrapping.\<close>

definition size_t :: "nat \<Rightarrow> nat" where
  "size_t n = n mod 2 ^ 64"

text \<open>The narrowing conversion to \<^verbatim>\<open>int\<close>: 32 bits, two's complement.\<close>

definition int32 :: "int \<Rightarrow> int" where
  "int32 i = (i + 2 ^ 31) mod 2 ^ 32 - 2 ^ 31"

text \<open>The conversion of an \<^verbatim>\<open>int\<close> to \<^verbatim>\<open>size_t\<close>.\<close>

definition size_t_of_int :: "int \<Rightarrow> nat" where
  "size_t_of_int i = nat (i mod 2 ^ 64)"

record 'a SimpleVector =
  m_items :: "'a list"
  m_size :: nat
  m_capacity :: nat

subsection \<open>The owned buffer and the standard algorithms\<close>

text \<open>
  Modelled from the spec: \<^verbatim>\<open>array_ptr.h\<close> (the class \<^verbatim>\<open>ArrayPtr\<close>) is not among the sources.
  The specification describes it as the owner of one contiguous run of \<open>n\<close>
  default-constructed elements, null when \<open>n = 0\<close>, with unchecked access and a swap.
  \<open>ArrayPtr dflt n\<close> is the buffer that \<^verbatim>\<open>ArrayPtr<Type> temp(n)\<close> allocates.
\<close>

definition ArrayPtr :: "'a \<Rightarrow> nat \<Rightarrow> 'a list" where
  "ArrayPtr dflt n = replicate n dflt"

text \<open>
  \<^verbatim>\<open>std::move(first, first + n, d_first)\<close> and \<^verbatim>\<open>std::copy\<close> between two different buffers:
  \<open>n\<close> assignments, front to back. \<open>first\<close> indexes \<open>src\<close> and \<open>d_first\<close> indexes \<open>dst\<close>.
\<close>

primrec std_move :: "'a list \<Rightarrow> nat \<Rightarrow> nat \<Rightarrow> 'a list \<Rightarrow> nat \<Rightarrow> error + 'a list" where
  "std_move src first 0 dst d_first = Inr dst"
| "std_move src first (Suc n) dst d_first =
     (if first < length src \<and> d_first < length dst
      then std_move src (Suc first) n (dst[d_first := src ! first]) (Suc d_first)
      else Inl UndefinedBehaviour)"

text \<open>
  \<^verbatim>\<open>std::move(first, first + n, d_first)\<close> when source and destination are the same
  buffer, as in \<^verbatim>\<open>Erase\<close>: each assignment reads the buffer as the previous ones left it.
\<close>

primrec std_move_within :: "'a list \<Rightarrow> nat \<Rightarrow> nat \<Rightarrow> nat \<Rightarrow> error + 'a list" where
  "std_move_within buf first 0 d_first = Inr buf"
| "std_move_within buf first (Suc n) d_first =
     (if first < length buf \<and> d_first < length buf
      then std_move_within (buf[d_first := buf ! first]) (Suc first) n (Suc d_first)
      else Inl UndefinedBehaviour)"

text \<open>
  \<^verbatim>\<open>std::move(first, first + n, d_first)\<close> between two buffers that both outlive the call,
  as in move assignment: each step assigns the source element to the destination and
  leaves the source element moved-from. The result is the pair of source and
  destination buffer.
\<close>

primrec std_move_from ::
  "('a \<Rightarrow> 'a) \<Rightarrow> 'a list \<Rightarrow> nat \<Rightarrow> nat \<Rightarrow> 'a list \<Rightarrow> nat \<Rightarrow> error + ('a list \<times> 'a list)" where
  "std_move_from moved src first 0 dst d_first = Inr (src, dst)"
| "std_move_from moved src first (Suc n) dst d_first =
     (if first < length src \<and> d_first < length dst
      then std_move_from moved (src[first := moved (src ! first)]) (Suc first) n
             (dst[d_first := src ! first]) (Suc d_first)
      else Inl UndefinedBehaviour)"

text \<open>
  \<^verbatim>\<open>std::fill(first, first + n, value)\<close>, and the loops
  \<^verbatim>\<open>for (it = first; it != last; ++it) *it = Type();\<close> of \<^verbatim>\<open>Reserve\<close> and \<^verbatim>\<open>Resize\<close>.
\<close>

primrec std_fill :: "'a list \<Rightarrow> nat \<Rightarrow> nat \<Rightarrow> 'a \<Rightarrow> error + 'a list" where
  "std_fill buf first 0 x = Inr buf"
| "std_fill buf first (Suc n) x =
     (if first < length buf
      then std_fill (buf[first := x]) (Suc first) n x
      else Inl UndefinedBehaviour)"

text \<open>
  \<^verbatim>\<open>std::equal(first1, first1 + n, first2)\<close>: compares front to back and stops at the first
  difference.
\<close>

primrec std_equal :: "'a list \<Rightarrow> nat \<Rightarrow> nat \<Rightarrow> 'a list \<Rightarrow> nat \<Rightarrow> error + bool" where
  "std_equal a first1 0 b first2 = Inr True"
| "std_equal a first1 (Suc n) b first2 =
     (if first1 < length a \<and> first2 < length b
      then (if a ! first1 = b ! first2 then std_equal a (Suc first1) n b (Suc first2)
            else Inr False)
      else Inl UndefinedBehaviour)"

text \<open>A single assignment through a pointer into the buffer, \<^verbatim>\<open>*(begin() + i) = x\<close>.\<close>

definition assign_at :: "'a list \<Rightarrow> nat \<Rightarrow> 'a \<Rightarrow> error + 'a list" where
  "assign_at buf i x = (if i < length buf then Inr (buf[i := x]) else Inl UndefinedBehaviour)"

subsection \<open>Constructors\<close>

text \<open>\<^verbatim>\<open>SimpleVector() noexcept = default\<close>.\<close>

definition SimpleVector_default :: "'a SimpleVector" where
  "SimpleVector_default = \<lparr>m_items = [], m_size = 0, m_capacity = 0\<rparr>"

text \<open>\<^verbatim>\<open>SimpleVector(size_t size, const Type& value)\<close>.\<close>

definition SimpleVector_fill :: "'a \<Rightarrow> nat \<Rightarrow> 'a \<Rightarrow> error + 'a SimpleVector" where
  "SimpleVector_fill dflt size' value =
     (if size' > 0 then
        (case std_fill (ArrayPtr dflt size') 0 size' value of
           Inl e \<Rightarrow> Inl e
         | Inr temp \<Rightarrow> Inr \<lparr>m_items = temp, m_size = size', m_capacity = size'\<rparr>)
      else Inr \<lparr>m_items = [], m_size = size', m_capacity = size'\<rparr>)"

text \<open>\<^verbatim>\<open>explicit SimpleVector(size_t size) : SimpleVector(size, Type())\<close>.\<close>

definition SimpleVector_size :: "'a \<Rightarrow> nat \<Rightarrow> error + 'a SimpleVector" where
  "SimpleVector_size dflt size' = SimpleVector_fill dflt size' dflt"

text \<open>\<^verbatim>\<open>SimpleVector(std::initializer_list<Type> init)\<close>.\<close>

definition SimpleVector_init :: "'a \<Rightarrow> 'a list \<Rightarrow> error + 'a SimpleVector" where
  "SimpleVector_init dflt init =
     (if length init > 0 then
        (case std_move init 0 (length init) (ArrayPtr dflt (length init)) 0 of
           Inl e \<Rightarrow> Inl e
         | Inr temp \<Rightarrow> Inr \<lparr>m_items = temp, m_size = length init, m_capacity = length init\<rparr>)
      else Inr \<lparr>m_items = [], m_size = length init, m_capacity = length init\<rparr>)"

text \<open>
  \<^verbatim>\<open>swap(SimpleVector& other)\<close> exchanges all three members. On values it is the exchange
  of the two vectors: the pair is (\<^verbatim>\<open>*this\<close>, \<^verbatim>\<open>other\<close>) before and after.
\<close>

definition swap :: "'a SimpleVector \<times> 'a SimpleVector \<Rightarrow> 'a SimpleVector \<times> 'a SimpleVector" where
  "swap p =
     (let this = fst p; other = snd p in
      (this\<lparr>m_items := m_items other, m_size := m_size other, m_capacity := m_capacity other\<rparr>,
       other\<lparr>m_items := m_items this, m_size := m_size this, m_capacity := m_capacity this\<rparr>))"

text \<open>
  \<^verbatim>\<open>SimpleVector(const SimpleVector& other)\<close>: a temporary of \<^verbatim>\<open>other.GetSize()\<close> default
  elements, the live elements copied over it, both counters overwritten with the
  source's, and the temporary swapped into the (default-initialised) new object.
\<close>

definition SimpleVector_copy :: "'a \<Rightarrow> 'a SimpleVector \<Rightarrow> error + 'a SimpleVector" where
  "SimpleVector_copy dflt other =
     (case SimpleVector_size dflt (m_size other) of
        Inl e \<Rightarrow> Inl e
      | Inr temp \<Rightarrow>
         (case std_move (m_items other) 0 (m_size other) (m_items temp) 0 of
            Inl e \<Rightarrow> Inl e
          | Inr buf \<Rightarrow>
              Inr (fst (swap (SimpleVector_default,
                     temp\<lparr>m_items := buf, m_size := m_size other,
                          m_capacity := m_capacity other\<rparr>)))))"

text \<open>
  \<^verbatim>\<open>SimpleVector(SimpleVector&& other)\<close>: returns the new object and the source as the
  constructor leaves it.
\<close>

definition SimpleVector_move :: "'a SimpleVector \<Rightarrow> 'a SimpleVector \<times> 'a SimpleVector" where
  "SimpleVector_move other =
     (let temp = SimpleVector_default;
          temp1 = temp\<lparr>m_items := m_items other\<rparr>;
          other1 = other\<lparr>m_items := m_items temp\<rparr>;
          temp2 = temp1\<lparr>m_size := m_size other1\<rparr>;
          other2 = other1\<lparr>m_size := 0\<rparr>;
          temp3 = temp2\<lparr>m_capacity := m_capacity other2\<rparr>;
          other3 = other2\<lparr>m_capacity := 0\<rparr>
      in (fst (swap (SimpleVector_default, temp3)), other3))"

subsection \<open>Capacity and growth\<close>

text \<open>
  The loop \<^verbatim>\<open>while (new_size > capacity_) capacity_ = (capacity_ == 0) ? 1 : capacity_ * 2;\<close>
  of \<^verbatim>\<open>Resize\<close>, on the 64-bit counter. \<open>None\<close>: the loop does not terminate.
\<close>

partial_function (option) grow_capacity :: "nat \<Rightarrow> nat \<Rightarrow> nat option" where
  "grow_capacity new_size capacity =
     (if new_size > capacity
      then grow_capacity new_size (if capacity = 0 then 1 else size_t (capacity * 2))
      else Some capacity)"

text \<open>
  The growth rule in the words of the specification, on unbounded numbers:
  \<^verbatim>\<open>capacity = max(1, capacity); while capacity < new_size: capacity *= 2\<close>.
\<close>

function spec_double_until :: "nat \<Rightarrow> nat \<Rightarrow> nat" where
  "spec_double_until new_size capacity =
     (if capacity < new_size \<and> 0 < capacity
      then spec_double_until new_size (capacity * 2)
      else capacity)"
  by pat_completeness auto
termination
  by (relation "measure (\<lambda>(new_size, capacity). new_size - capacity)") auto

definition spec_grow :: "nat \<Rightarrow> nat \<Rightarrow> nat" where
  "spec_grow new_size capacity = spec_double_until new_size (max 1 capacity)"

text \<open>\<^verbatim>\<open>void Resize(size_t new_size) noexcept\<close>.\<close>

definition Resize :: "'a \<Rightarrow> nat \<Rightarrow> 'a SimpleVector \<Rightarrow> (error + 'a SimpleVector) option" where
  "Resize dflt new_size v =
     (if new_size > m_size v then
        (case (if new_size > m_capacity v then
                 (case grow_capacity new_size (m_capacity v) of
                    None \<Rightarrow> None
                  | Some cap \<Rightarrow>
                     Some (let temp = ArrayPtr dflt cap
                           in case (if m_items v \<noteq> []
                                    then std_move (m_items v) 0 (m_size v) temp 0
                                    else Inr temp) of
                                Inl e \<Rightarrow> Inl e
                              | Inr temp1 \<Rightarrow> Inr (v\<lparr>m_items := temp1, m_capacity := cap\<rparr>)))
               else Some (Inr v)) of
           None \<Rightarrow> None
         | Some (Inl e) \<Rightarrow> Some (Inl e)
         | Some (Inr v1) \<Rightarrow>
            Some (case std_fill (m_items v1) (m_size v1) (new_size - m_size v1) dflt of
                    Inl e \<Rightarrow> Inl e
                  | Inr buf \<Rightarrow> Inr (v1\<lparr>m_items := buf, m_size := new_size\<rparr>)))
      else Some (Inr (v\<lparr>m_size := new_size\<rparr>)))"

text \<open>\<^verbatim>\<open>void Reserve(size_t new_capacity)\<close>. \<^verbatim>\<open>begin() != end()\<close> is \<^verbatim>\<open>size_ != 0\<close>.\<close>

definition Reserve :: "'a \<Rightarrow> nat \<Rightarrow> 'a SimpleVector \<Rightarrow> error + 'a SimpleVector" where
  "Reserve dflt new_capacity v =
     (if new_capacity > m_capacity v then
        (let temp = ArrayPtr dflt new_capacity
         in case (if m_size v \<noteq> 0
                  then std_move (m_items v) 0 (m_capacity v) temp 0
                  else Inr temp) of
              Inl e \<Rightarrow> Inl e
            | Inr temp1 \<Rightarrow>
               (case std_fill temp1 (m_capacity v) (new_capacity - m_capacity v) dflt of
                  Inl e \<Rightarrow> Inl e
                | Inr temp2 \<Rightarrow> Inr (v\<lparr>m_items := temp2, m_capacity := new_capacity\<rparr>)))
      else Inr v)"

text \<open>\<^verbatim>\<open>SimpleVector(ReserveProxyObj capacity)\<close>: \<^verbatim>\<open>Reserve\<close> on the default members.\<close>

definition SimpleVector_reserve :: "'a \<Rightarrow> nat \<Rightarrow> error + 'a SimpleVector" where
  "SimpleVector_reserve dflt capacity_to_reserve =
     Reserve dflt capacity_to_reserve SimpleVector_default"

subsection \<open>Element access and mutation\<close>

text \<open>\<^verbatim>\<open>operator[]\<close>: \<^verbatim>\<open>items_[index]\<close>, unchecked.\<close>

definition index_op :: "'a SimpleVector \<Rightarrow> nat \<Rightarrow> error + 'a" where
  "index_op v index =
     (if index < length (m_items v) then Inr (m_items v ! index) else Inl UndefinedBehaviour)"

text \<open>\<^verbatim>\<open>At\<close>: throws \<^verbatim>\<open>std::out_of_range\<close> when \<^verbatim>\<open>index >= size_\<close>.\<close>

definition At :: "'a SimpleVector \<Rightarrow> nat \<Rightarrow> error + 'a" where
  "At v index = (if index \<ge> m_size v then Inl OutOfRange else index_op v index)"

text \<open>
  \<^verbatim>\<open>PushBack\<close>, both overloads: \<^verbatim>\<open>Resize(size_ + 1); *(end() - 1) = item;\<close>. With \<^verbatim>\<open>size_\<close> zero
  after the call of \<^verbatim>\<open>Resize\<close>, \<^verbatim>\<open>end() - 1\<close> is not a pointer into the buffer.
\<close>

definition PushBack :: "'a \<Rightarrow> 'a \<Rightarrow> 'a SimpleVector \<Rightarrow> (error + 'a SimpleVector) option" where
  "PushBack dflt item v =
     (case Resize dflt (size_t (m_size v + 1)) v of
        None \<Rightarrow> None
      | Some (Inl e) \<Rightarrow> Some (Inl e)
      | Some (Inr v1) \<Rightarrow>
         Some (if m_size v1 = 0 then Inl UndefinedBehaviour
               else (case assign_at (m_items v1) (m_size v1 - 1) item of
                       Inl e \<Rightarrow> Inl e
                     | Inr buf \<Rightarrow> Inr (v1\<lparr>m_items := buf\<rparr>))))"

text \<open>\<^verbatim>\<open>PopBack\<close>.\<close>

definition PopBack :: "'a SimpleVector \<Rightarrow> error + 'a SimpleVector" where
  "PopBack v = (if m_size v > 0 then Inr (v\<lparr>m_size := m_size v - 1\<rparr>) else Inl AssertionFailed)"

text \<open>\<^verbatim>\<open>Clear\<close>.\<close>

definition Clear :: "'a SimpleVector \<Rightarrow> 'a SimpleVector" where
  "Clear v = v\<lparr>m_size := 0\<rparr>"

text \<open>
  \<^verbatim>\<open>Iterator Insert(ConstIterator pos, Type&& value)\<close>. The result is the vector and the
  returned iterator, as an offset from the \<^verbatim>\<open>begin()\<close> of the vector after the call.
  \<^verbatim>\<open>begin() == end()\<close> is \<^verbatim>\<open>size_ == 0\<close>.

  In the second part of the function, line by line:
  \<^item> \<^verbatim>\<open>int dist = std::distance(p, end());\<close> narrows the distance \<open>m_size v - pos\<close> to 32
    bits;
  \<^item> \<^verbatim>\<open>ArrayPtr<Type> temp(dist);\<close> converts \<open>dist\<close> to \<^verbatim>\<open>size_t\<close>;
  \<^item> \<^verbatim>\<open>std::move(p, end(), temp.Get());\<close> moves all \<open>m_size v - pos\<close> elements, whatever the
    length of \<open>temp\<close>;
  \<^item> \<^verbatim>\<open>Iterator t = end() - dist - 1;\<close> is pointer arithmetic with the signed \<open>dist\<close>; the
    assignment through \<open>t\<close> needs it to point into the buffer;
  \<^item> \<^verbatim>\<open>std::move(temp.Get(), temp.Get() + dist, t+1);\<close> needs \<open>dist \<ge> 0\<close> for its range to
    be valid.
\<close>

definition Insert ::
  "'a \<Rightarrow> nat \<Rightarrow> 'a \<Rightarrow> 'a SimpleVector \<Rightarrow> (error + ('a SimpleVector \<times> nat)) option" where
  "Insert dflt pos value v =
     (if m_size v = 0 then
        (case Resize dflt (size_t (m_size v + 1)) v of
           None \<Rightarrow> None
         | Some (Inl e) \<Rightarrow> Some (Inl e)
         | Some (Inr v1) \<Rightarrow>
            Some (case assign_at (m_items v1) 0 value of
                    Inl e \<Rightarrow> Inl e
                  | Inr buf \<Rightarrow> Inr (v1\<lparr>m_items := buf\<rparr>, 0)))
      else if pos > m_size v then Some (Inl UndefinedBehaviour)
      else
        (let dist = int32 (int (m_size v) - int pos);
             temp = ArrayPtr dflt (size_t_of_int dist)
         in case std_move (m_items v) pos (m_size v - pos) temp 0 of
              Inl e \<Rightarrow> Some (Inl e)
            | Inr temp1 \<Rightarrow>
               (case Resize dflt (size_t (m_size v + 1)) v of
                  None \<Rightarrow> None
                | Some (Inl e) \<Rightarrow> Some (Inl e)
                | Some (Inr v1) \<Rightarrow>
                   Some (let t = int (m_size v1) - dist - 1
                         in if t < 0 then Inl UndefinedBehaviour
                            else (case assign_at (m_items v1) (nat t) value of
                                    Inl e \<Rightarrow> Inl e
                                  | Inr buf1 \<Rightarrow>
                                     if dist < 0 then Inl UndefinedBehaviour
                                     else (case std_move temp1 0 (nat dist) buf1 (nat t + 1) of
                                             Inl e \<Rightarrow> Inl e
                                           | Inr buf2 \<Rightarrow>
                                               Inr (v1\<lparr>m_items := buf2\<rparr>, nat t)))))))"

text \<open>
  \<^verbatim>\<open>Iterator Erase(ConstIterator pos)\<close>. \<^verbatim>\<open>first = pos + 1\<close> has to be at most \<^verbatim>\<open>last = end()\<close>
  for \<^verbatim>\<open>std::move(first, last, p)\<close> to have a valid range.
\<close>

definition Erase :: "nat \<Rightarrow> 'a SimpleVector \<Rightarrow> error + ('a SimpleVector \<times> nat)" where
  "Erase pos v =
     (if \<not> m_size v > 0 then Inl AssertionFailed
      else if pos + 1 > m_size v then Inl UndefinedBehaviour
      else
        (let first = pos + 1;
             p = pos;
             last = m_size v;
             v1 = v\<lparr>m_size := m_size v - 1\<rparr>
         in case std_move_within (m_items v1) first (last - first) p of
              Inl e \<Rightarrow> Inl e
            | Inr buf \<Rightarrow> Inr (v1\<lparr>m_items := buf\<rparr>, p)))"

subsection \<open>Comparison and assignment, on a store of objects\<close>

text \<open>
  \<^verbatim>\<open>operator==\<close> compares the addresses of its arguments before their contents, and the
  assignment operators are called with \<^verbatim>\<open>*this\<close> and \<^verbatim>\<open>rhs\<close> that may be the same object.
  A store maps the address of an object to its members.
\<close>

type_synonym addr = nat

type_synonym 'a store = "addr \<Rightarrow> 'a SimpleVector"

text \<open>
  \<^verbatim>\<open>(&lhs == &rhs) || (lhs.GetSize() == rhs.GetSize() && std::equal(lhs.begin(), lhs.end(), rhs.begin()))\<close>
\<close>

definition op_eq :: "'a store \<Rightarrow> addr \<Rightarrow> addr \<Rightarrow> error + bool" where
  "op_eq st lhs rhs =
     (if lhs = rhs then Inr True
      else if m_size (st lhs) = m_size (st rhs)
           then std_equal (m_items (st lhs)) 0 (m_size (st lhs)) (m_items (st rhs)) 0
           else Inr False)"

text \<open>\<^verbatim>\<open>operator!=\<close>: \<^verbatim>\<open>!(lhs == rhs)\<close>.\<close>

definition op_neq :: "'a store \<Rightarrow> addr \<Rightarrow> addr \<Rightarrow> error + bool" where
  "op_neq st lhs rhs = (case op_eq st lhs rhs of Inl e \<Rightarrow> Inl e | Inr b \<Rightarrow> Inr (\<not> b))"

text \<open>
  \<^verbatim>\<open>SimpleVector& operator=(const SimpleVector& rhs)\<close>: the assertion, a copy of \<^verbatim>\<open>rhs\<close> in a
  temporary, and the swap of the temporary with \<^verbatim>\<open>*this\<close>; the temporary then goes out of
  scope.
\<close>

definition copy_assign :: "'a \<Rightarrow> addr \<Rightarrow> addr \<Rightarrow> 'a store \<Rightarrow> error + 'a store" where
  "copy_assign dflt this rhs st =
     (case op_neq st this rhs of
        Inl e \<Rightarrow> Inl e
      | Inr differ \<Rightarrow>
         if \<not> differ then Inl AssertionFailed
         else (case SimpleVector_copy dflt (st rhs) of
                 Inl e \<Rightarrow> Inl e
               | Inr temp \<Rightarrow> Inr (st(this := fst (swap (st this, temp))))))"

text \<open>
  \<^verbatim>\<open>SimpleVector& operator=(SimpleVector&& rhs)\<close>: the assertion, \<^verbatim>\<open>Resize(rhs.GetSize())\<close> on
  \<^verbatim>\<open>*this\<close>, and \<^verbatim>\<open>std::move(rhs.begin(), rhs.end(), begin())\<close>. Past the assertion the two
  objects are distinct, so the elements move between two different buffers; the
  elements of \<^verbatim>\<open>rhs\<close> are left moved-from, its size and capacity as they were.
\<close>

definition move_assign ::
  "'a \<Rightarrow> ('a \<Rightarrow> 'a) \<Rightarrow> addr \<Rightarrow> addr \<Rightarrow> 'a store \<Rightarrow> (error + 'a store) option" where
  "move_assign dflt moved this rhs st =
     (case op_neq st this rhs of
        Inl e \<Rightarrow> Some (Inl e)
      | Inr differ \<Rightarrow>
         if \<not> differ then Some (Inl AssertionFailed)
         else (case Resize dflt (m_size (st rhs)) (st this) of
                 None \<Rightarrow> None
               | Some (Inl e) \<Rightarrow> Some (Inl e)
               | Some (Inr v1) \<Rightarrow>
                  Some (let st1 = st(this := v1)
                        in case std_move_from moved (m_items (st1 rhs)) 0 (m_size (st1 rhs))
                                  (m_items (st1 this)) 0 of
                             Inl e \<Rightarrow> Inl e
                           | Inr (src, dst) \<Rightarrow>
                               Inr (st1(rhs := (st1 rhs)\<lparr>m_items := src\<rparr>,
                                        this := (st1 this)\<lparr>m_items := dst\<rparr>)))))"

text \<open>A store in which every address holds a default-constructed vector.\<close>

definition empty_store :: "'a store" where
  "empty_store a = SimpleVector_default"

subsection \<open>The class invariant\<close>

text \<open>
  The invariant of the specification's data model: the logical size is at most the
  capacity, and the owned buffer has exactly \<^verbatim>\<open>capacity_\<close> slots.
\<close>

definition invariant :: "'a SimpleVector \<Rightarrow> bool" where
  "invariant v \<longleftrightarrow> m_size v \<le> m_capacity v \<and> length (m_items v) = m_capacity v"

text \<open>The live elements, indices \<open>[0, size)\<close>.\<close>

definition live :: "'a SimpleVector \<Rightarrow> 'a list" where
  "live v = take (m_size v) (m_items v)"

section \<open>Facts about the buffer algorithms\<close>

text \<open>
  The recursive equation of the specification's doubling rule rewrites a call into a
  call; it is applied by hand where needed.
\<close>

declare spec_double_until.simps [simp del]

text \<open>
  Within the bounds of both buffers each loop over a buffer succeeds, and its result is
  the expected slice of the lists. The capacity loop agrees with the specification's
  rule as long as no doubling wraps, which is the case up to \<open>new_size = 2^63\<close>; from 0 or
  a power of two it never reaches a \<open>new_size\<close> beyond \<open>2^63\<close>.
\<close>

lemma std_move_ok:
  "first + n \<le> length src \<Longrightarrow> d_first + n \<le> length dst \<Longrightarrow>
   std_move src first n dst d_first =
     Inr (take d_first dst @ take n (drop first src) @ drop (d_first + n) dst)"
proof (induction n arbitrary: first dst d_first)
  case 0
  then show ?case by simp
next
  case (Suc n)
  have a: "first < length src" "d_first < length dst" using Suc.prems by auto
  have b: "take (Suc n) (drop first src) = src ! first # take n (drop (Suc first) src)"
    using a by (simp add: Cons_nth_drop_Suc [symmetric])
  have c: "take (Suc d_first) (dst[d_first := src ! first]) = take d_first dst @ [src ! first]"
    using a by (simp add: take_Suc_conv_app_nth)
  show ?case using Suc.prems a Suc.IH [where first = "Suc first" and dst = "dst[d_first := src ! first]" and d_first = "Suc d_first"]
    by (simp add: b c)
qed

lemma std_fill_ok:
  "first + n \<le> length buf \<Longrightarrow>
   std_fill buf first n x = Inr (take first buf @ replicate n x @ drop (first + n) buf)"
proof (induction n arbitrary: first buf)
  case 0
  then show ?case by simp
next
  case (Suc n)
  have a: "first < length buf" using Suc.prems by auto
  have c: "take (Suc first) (buf[first := x]) = take first buf @ [x]"
    using a by (simp add: take_Suc_conv_app_nth)
  show ?case using Suc.prems a Suc.IH [where first = "Suc first" and buf = "buf[first := x]"]
    by (simp add: c)
qed

lemma std_move_within_ok:
  "Suc d_first + n \<le> length buf \<Longrightarrow>
   std_move_within buf (Suc d_first) n d_first =
     Inr (take d_first buf @ take n (drop (Suc d_first) buf) @ drop (d_first + n) buf)"
proof (induction n arbitrary: d_first buf)
  case 0
  then show ?case by simp
next
  case (Suc n)
  let ?f = "Suc d_first"
  have a: "?f < length buf" "d_first < length buf" using Suc.prems by auto
  have b: "take (Suc n) (drop ?f buf) = buf ! ?f # take n (drop (Suc ?f) buf)"
    using a by (simp add: Cons_nth_drop_Suc [symmetric])
  have c: "take (Suc d_first) (buf[d_first := buf ! ?f]) = take d_first buf @ [buf ! ?f]"
    using a by (simp add: take_Suc_conv_app_nth)
  show ?case using Suc.prems a Suc.IH [where d_first = "Suc d_first" and buf = "buf[d_first := buf ! ?f]"]
    by (simp add: b c)
qed

lemma std_equal_ok:
  "first1 + n \<le> length a \<Longrightarrow> first2 + n \<le> length b \<Longrightarrow>
   std_equal a first1 n b first2 = Inr (take n (drop first1 a) = take n (drop first2 b))"
proof (induction n arbitrary: first1 first2)
  case 0
  then show ?case by simp
next
  case (Suc n)
  have a: "first1 < length a" "first2 < length b" using Suc.prems by auto
  have b: "take (Suc n) (drop first1 a) = a ! first1 # take n (drop (Suc first1) a)"
          "take (Suc n) (drop first2 b) = b ! first2 # take n (drop (Suc first2) b)"
    using a by (simp_all add: Cons_nth_drop_Suc [symmetric])
  show ?case using Suc.prems a Suc.IH [where ?first1.0 = "Suc first1" and ?first2.0 = "Suc first2"]
    by (simp add: b)
qed

lemma std_move_from_ok:
  "first + n \<le> length src \<Longrightarrow> d_first + n \<le> length dst \<Longrightarrow>
   std_move_from moved src first n dst d_first =
     Inr (take first src @ map moved (take n (drop first src)) @ drop (first + n) src,
          take d_first dst @ take n (drop first src) @ drop (d_first + n) dst)"
proof (induction n arbitrary: first src dst d_first)
  case 0
  then show ?case by simp
next
  case (Suc n)
  let ?src = "src[first := moved (src ! first)]"
  let ?dst = "dst[d_first := src ! first]"
  have a: "first < length src" "d_first < length dst" using Suc.prems by auto
  have b: "take (Suc n) (drop first src) = src ! first # take n (drop (Suc first) src)"
    using a by (simp add: Cons_nth_drop_Suc [symmetric])
  have c: "take (Suc d_first) ?dst = take d_first dst @ [src ! first]"
    using a by (simp add: take_Suc_conv_app_nth)
  have d: "take (Suc first) ?src = take first src @ [moved (src ! first)]"
    using a by (simp add: take_Suc_conv_app_nth)
  have e: "drop (Suc first) ?src = drop (Suc first) src" by simp
  have ih: "std_move_from moved ?src (Suc first) n ?dst (Suc d_first) =
     Inr (take (Suc first) ?src @ map moved (take n (drop (Suc first) ?src))
            @ drop (Suc first + n) ?src,
          take (Suc d_first) ?dst @ take n (drop (Suc first) ?src) @ drop (Suc d_first + n) ?dst)"
    using Suc.prems by (intro Suc.IH) simp_all
  show ?case using a by (simp add: ih b c d e del: take_Suc)
qed

lemma std_move_overflow:
  "0 < n \<Longrightarrow> length dst \<le> d_first \<Longrightarrow>
   std_move src first n dst d_first = Inl UndefinedBehaviour"
  by (cases n) simp_all

lemma size_t_id: "n < 2 ^ 64 \<Longrightarrow> size_t n = n"
  by (simp add: size_t_def)

lemma spec_double_until_ge:
  "0 < capacity \<Longrightarrow> new_size \<le> spec_double_until new_size capacity"
proof (induction new_size capacity rule: spec_double_until.induct)
  case (1 new_size capacity)
  then show ?case by (subst spec_double_until.simps) simp
qed

lemma spec_double_until_mono: "capacity \<le> spec_double_until new_size capacity"
proof (induction new_size capacity rule: spec_double_until.induct)
  case (1 new_size capacity)
  show ?case
  proof (cases "capacity < new_size \<and> 0 < capacity")
    case True
    have "spec_double_until new_size capacity = spec_double_until new_size (capacity * 2)"
      using True by (subst spec_double_until.simps) simp
    moreover have "capacity * 2 \<le> spec_double_until new_size (capacity * 2)"
      using True by (rule 1)
    ultimately show ?thesis by simp
  next
    case False
    have "spec_double_until new_size capacity = capacity"
      by (subst spec_double_until.simps) (simp only: False if_False)
    then show ?thesis by simp
  qed
qed

lemma spec_grow_ge: "new_size \<le> spec_grow new_size capacity"
  by (simp add: spec_grow_def spec_double_until_ge)

lemma spec_grow_mono: "capacity \<le> spec_grow new_size capacity"
proof -
  have "max 1 capacity \<le> spec_double_until new_size (max 1 capacity)"
    by (rule spec_double_until_mono)
  then show ?thesis by (simp add: spec_grow_def)
qed

lemma grow_capacity_doubling:
  "0 < capacity \<Longrightarrow> new_size \<le> 2 ^ 63 \<Longrightarrow>
   grow_capacity new_size capacity = Some (spec_double_until new_size capacity)"
proof (induction new_size capacity rule: spec_double_until.induct)
  case (1 new_size capacity)
  show ?case
  proof (cases "capacity < new_size")
    case True
    have "capacity * 2 < 2 ^ 64" using True "1.prems" by simp
    then have w: "size_t (capacity * 2) = capacity * 2" by (rule size_t_id)
    have "grow_capacity new_size (capacity * 2) = Some (spec_double_until new_size (capacity * 2))"
      using True "1.prems" by (intro "1.IH") simp_all
    then show ?thesis using True "1.prems"
      by (subst grow_capacity.simps, subst spec_double_until.simps) (simp add: w)
  next
    case False
    then show ?thesis
      by (subst grow_capacity.simps, subst spec_double_until.simps) simp
  qed
qed

lemma grow_capacity_spec:
  assumes "capacity < new_size" "new_size \<le> 2 ^ 63"
  shows "grow_capacity new_size capacity = Some (spec_grow new_size capacity)"
proof (cases "capacity = 0")
  case True
  have "grow_capacity new_size capacity = grow_capacity new_size 1"
    using True assms by (subst grow_capacity.simps) simp
  then show ?thesis using True assms by (simp add: spec_grow_def grow_capacity_doubling)
next
  case False
  then show ?thesis using assms by (simp add: spec_grow_def grow_capacity_doubling max_def)
qed

lemma grow_capacity_diverges:
  assumes "2 ^ 63 < new_size" "capacity = 0 \<or> (\<exists>k\<le>63. capacity = 2 ^ k)"
  shows "grow_capacity new_size capacity = None"
proof -
  let ?P = "\<lambda>(n::nat) (c::nat) (y::nat). \<not> (2 ^ 63 < n \<and> (c = 0 \<or> (\<exists>k\<le>63. c = 2 ^ k)))"
  have "?P n c y" if "grow_capacity n c = Some y" for n c y
  proof (rule grow_capacity.raw_induct [where P = ?P, OF _ that])
    fix grow :: "nat \<Rightarrow> nat \<Rightarrow> nat option" and n c y :: nat
    assume IH: "\<And>n c y. grow n c = Some y \<Longrightarrow> ?P n c y"
      and hyps: "(if c < n then grow n (if c = 0 then 1 else size_t (c * 2)) else Some c) = Some y"
    show "?P n c y"
    proof
      assume a: "2 ^ 63 < n \<and> (c = 0 \<or> (\<exists>k\<le>63. c = 2 ^ k))"
      then have big: "(2::nat) ^ 63 < n" by simp
      have lt: "c < n"
      proof -
        from a consider "c = 0" | k where "k \<le> 63" "c = 2 ^ k" by auto
        then show ?thesis
        proof cases
          case 1
          then show ?thesis using big by simp
        next
          case 2
          have "(2::nat) ^ k \<le> 2 ^ 63" using 2 by (intro power_increasing) simp_all
          then show ?thesis using big 2 by simp
        qed
      qed
      let ?c' = "if c = 0 then 1 else size_t (c * 2)"
      have step: "grow n ?c' = Some y" using hyps lt by simp
      have "?c' = 0 \<or> (\<exists>k\<le>63. ?c' = 2 ^ k)"
      proof -
        from a consider "c = 0" | k where "k < 63" "c = 2 ^ k" | "c = 2 ^ 63"
          by (metis le_neq_implies_less)
        then show ?thesis
        proof cases
          case 1
          then have "?c' = 2 ^ 0" by simp
          then show ?thesis by blast
        next
          case 2
          then have "c * 2 = 2 ^ Suc k" by simp
          moreover have "(2::nat) ^ Suc k < 2 ^ 64" using 2 by (intro power_strict_increasing) simp_all
          ultimately have "size_t (c * 2) = 2 ^ Suc k" by (simp add: size_t_id)
          moreover have "c \<noteq> 0" using 2 by simp
          ultimately have "?c' = 2 ^ Suc k" by simp
          moreover have "Suc k \<le> 63" using 2 by simp
          ultimately show ?thesis by blast
        next
          case 3
          then have "size_t (c * 2) = 0" by (simp add: size_t_def)
          then show ?thesis using 3 by simp
        qed
      qed
      then show False using IH [OF step] big by simp
    qed
  qed
  then show ?thesis using assms by (cases "grow_capacity new_size capacity") auto
qed

section \<open>What \<^verbatim>\<open>Resize\<close> and \<^verbatim>\<open>Reserve\<close> compute\<close>

text \<open>
  One equation for each branch of the two functions, under the bounds that keep every
  access inside the buffers and the capacity loop from wrapping.
\<close>

lemma Resize_shrink:
  "new_size \<le> m_size v \<Longrightarrow> Resize dflt new_size v = Some (Inr (v\<lparr>m_size := new_size\<rparr>))"
  by (simp add: Resize_def)

lemma Resize_within:
  assumes "m_size v < new_size" "new_size \<le> m_capacity v" "new_size \<le> length (m_items v)"
  shows "Resize dflt new_size v =
    Some (Inr (v\<lparr>m_items := take (m_size v) (m_items v) @ replicate (new_size - m_size v) dflt
                        @ drop new_size (m_items v),
           m_size := new_size\<rparr>))"
  using assms by (simp add: Resize_def std_fill_ok)

lemma Resize_grow:
  assumes "m_capacity v < new_size" "new_size \<le> 2 ^ 63"
    and "m_size v \<le> m_capacity v" "m_size v \<le> length (m_items v)"
  shows "Resize dflt new_size v =
    Some (Inr (v\<lparr>m_items := take (m_size v) (m_items v)
                        @ replicate (spec_grow new_size (m_capacity v) - m_size v) dflt,
           m_size := new_size,
           m_capacity := spec_grow new_size (m_capacity v)\<rparr>))"
proof -
  let ?cap = "spec_grow new_size (m_capacity v)"
  have gc: "grow_capacity new_size (m_capacity v) = Some ?cap"
    using assms(1,2) by (rule grow_capacity_spec)
  have ge: "new_size \<le> ?cap" by (rule spec_grow_ge)
  have lt: "m_size v < new_size" using assms by simp
  have mv: "(if m_items v \<noteq> [] then std_move (m_items v) 0 (m_size v) (ArrayPtr dflt ?cap) 0
             else Inr (ArrayPtr dflt ?cap))
            = Inr (take (m_size v) (m_items v) @ replicate (?cap - m_size v) dflt)"
  proof (cases "m_items v = []")
    case True
    then have "m_size v = 0" using assms by simp
    then show ?thesis using True by (simp add: ArrayPtr_def)
  next
    case False
    then show ?thesis using assms ge lt by (simp add: std_move_ok ArrayPtr_def)
  qed
  have fl: "std_fill (take (m_size v) (m_items v) @ replicate (?cap - m_size v) dflt)
              (m_size v) (new_size - m_size v) dflt
            = Inr (take (m_size v) (m_items v) @ replicate (?cap - m_size v) dflt)"
  proof -
    have "replicate (new_size - m_size v) dflt @ replicate (?cap - new_size) dflt
          = replicate (?cap - m_size v) dflt"
      using ge lt by (simp add: replicate_add [symmetric])
    then show ?thesis using assms ge lt by (simp add: std_fill_ok min_def)
  qed
  show ?thesis unfolding Resize_def gc option.case Let_def mv using assms lt by (simp add: fl)
qed

lemma Resize_diverges:
  assumes "m_size v < new_size" "m_capacity v < new_size"
    and "grow_capacity new_size (m_capacity v) = None"
  shows "Resize dflt new_size v = None"
  using assms by (simp add: Resize_def)


lemma Reserve_noop:
  "new_capacity \<le> m_capacity v \<Longrightarrow> Reserve dflt new_capacity v = Inr v"
  by (simp add: Reserve_def)

lemma Reserve_grow:
  assumes "m_capacity v < new_capacity" "length (m_items v) = m_capacity v"
  shows "Reserve dflt new_capacity v =
    Inr (v\<lparr>m_items := (if m_size v \<noteq> 0 then m_items v else replicate (m_capacity v) dflt)
                        @ replicate (new_capacity - m_capacity v) dflt,
           m_capacity := new_capacity\<rparr>)"
proof -
  let ?b = "(if m_size v \<noteq> 0 then m_items v else replicate (m_capacity v) dflt)
            @ replicate (new_capacity - m_capacity v) dflt"
  have mv: "(if m_size v \<noteq> 0 then std_move (m_items v) 0 (m_capacity v) (ArrayPtr dflt new_capacity) 0
             else Inr (ArrayPtr dflt new_capacity)) = Inr ?b"
    using assms by (simp add: std_move_ok ArrayPtr_def replicate_add [symmetric])
  show ?thesis unfolding Reserve_def Let_def mv using assms by (simp add: std_fill_ok)
qed


lemma Resize_up:
  assumes "invariant v" "m_size v \<le> new_size" "new_size \<le> m_capacity v \<or> new_size \<le> 2 ^ 63"
  shows "\<exists>v1. Resize dflt new_size v = Some (Inr v1) \<and> m_size v1 = new_size \<and> invariant v1 \<and>
           m_capacity v \<le> m_capacity v1 \<and>
           take new_size (m_items v1) = live v @ replicate (new_size - m_size v) dflt"
proof -
  consider (same) "new_size = m_size v"
    | (within) "m_size v < new_size" "new_size \<le> m_capacity v"
    | (grow) "m_capacity v < new_size"
    using assms by fastforce
  then show ?thesis
  proof cases
    case same
    then show ?thesis using assms by (simp add: Resize_shrink invariant_def live_def)
  next
    case within
    then show ?thesis using assms
      by (simp add: Resize_within invariant_def live_def)
  next
    case grow
    then have small: "new_size \<le> 2 ^ 63" using assms(3) by simp
    have "new_size \<le> spec_grow new_size (m_capacity v)" by (rule spec_grow_ge)
    moreover have "m_capacity v \<le> spec_grow new_size (m_capacity v)"
      by (rule spec_grow_mono)
    ultimately show ?thesis using grow assms(1,2)
      by (simp add: Resize_grow [OF grow small] invariant_def live_def)
  qed
qed

lemma Resize_total:
  assumes "invariant v" "new_size \<le> m_capacity v \<or> new_size \<le> 2 ^ 63"
  shows "\<exists>v1. Resize dflt new_size v = Some (Inr v1) \<and> m_size v1 = new_size \<and> invariant v1"
proof (cases "m_size v \<le> new_size")
  case True
  then show ?thesis using Resize_up [OF assms(1) True assms(2), of dflt] by auto
next
  case False
  then show ?thesis using assms by (simp add: Resize_shrink invariant_def)
qed

section \<open>What the constructors, \<^verbatim>\<open>Insert\<close>, \<^verbatim>\<open>Erase\<close> and \<^verbatim>\<open>operator==\<close> compute\<close>

text \<open>
  \<^verbatim>\<open>Insert\<close> does what the specification says when the distance from the position to the
  end fits the \<^verbatim>\<open>int dist\<close> and the size can still grow by one.
\<close>

lemma assign_at_ok: "i < length buf \<Longrightarrow> assign_at buf i x = Inr (buf[i := x])"
  by (simp add: assign_at_def)

lemma upd_conv_take_drop:
  "i < length buf \<Longrightarrow> buf[i := x] = take i buf @ [x] @ drop (Suc i) buf"
  by (simp add: upd_conv_take_nth_drop)

lemma take_length_append: "take (length xs) (xs @ ys) = xs"
  by simp

lemma int32_id: "0 \<le> i \<Longrightarrow> i < 2 ^ 31 \<Longrightarrow> int32 i = i"
  by (simp add: int32_def)

lemma size_t_of_int_nat: "n < 2 ^ 64 \<Longrightarrow> size_t_of_int (int n) = n"
  by (simp add: size_t_of_int_def)

lemma Insert_result:
  assumes "invariant v" "pos \<le> m_size v"
    and "m_size v - pos < 2 ^ 31" "m_size v < 2 ^ 63"
  shows "\<exists>v1. Resize dflt (m_size v + 1) v = Some (Inr v1) \<and> invariant v1 \<and>
           m_size v1 = m_size v + 1 \<and>
           Insert dflt pos value v =
             Some (Inr (v1\<lparr>m_items := take pos (live v) @ [value] @ drop pos (live v)
                                  @ drop (m_size v + 1) (m_items v1)\<rparr>, pos))"
proof -
  have fits: "m_size v + 1 \<le> m_capacity v \<or> m_size v + 1 \<le> 2 ^ 63" using assms(4) by simp
  obtain v1 where r: "Resize dflt (m_size v + 1) v = Some (Inr v1)"
    and s1: "m_size v1 = m_size v + 1" and i1: "invariant v1"
    and t1: "take (m_size v + 1) (m_items v1) = live v @ replicate (m_size v + 1 - m_size v) dflt"
    using Resize_up [OF assms(1) _ fits, of dflt] by auto
  have w: "size_t (m_size v + 1) = m_size v + 1" using assms(4) by (simp add: size_t_id)
  have lv: "length (live v) = m_size v" using assms by (simp add: live_def invariant_def)
  have len1: "m_size v + 1 \<le> length (m_items v1)" using i1 s1 by (simp add: invariant_def)
  have "take (m_size v) (take (m_size v + 1) (m_items v1)) = live v"
    using lv by (simp only: t1) simp
  then have pre: "take (m_size v) (m_items v1) = live v" by (simp add: min_def)
  have "take pos (take (m_size v) (m_items v1)) = take pos (live v)" by (simp only: pre)
  then have prepos: "take pos (m_items v1) = take pos (live v)" using assms by (simp add: min_def)
  have upd: "(m_items v1)[pos := value] = take pos (live v) @ [value] @ drop (Suc pos) (m_items v1)"
    using len1 assms by (simp add: upd_conv_take_drop prepos)
  have asg: "assign_at (m_items v1) pos value = Inr ((m_items v1)[pos := value])"
    using len1 assms by (simp add: assign_at_ok)
  show ?thesis
  proof (cases "m_size v = 0")
    case True
    then have p0: "pos = 0" using assms by simp
    have "live v = []" using True by (simp add: live_def)
    then show ?thesis using True p0 r s1 i1 upd asg w
      by (simp add: Insert_def)
  next
    case False
    let ?n = "m_size v - pos"
    have dist: "int32 (int (m_size v) - int pos) = int ?n"
    proof -
      have e: "int (m_size v) - int pos = int ?n" using assms(2) by simp
      have "int ?n < 2 ^ 31" using assms(3) by simp
      then have "int32 (int ?n) = int ?n" by (intro int32_id) simp_all
      then show ?thesis by (simp only: e)
    qed
    have tlen: "size_t_of_int (int ?n) = ?n"
      using assms(3) by (intro size_t_of_int_nat) simp
    have tmp: "std_move (m_items v) pos ?n (ArrayPtr dflt ?n) 0 = Inr (drop pos (live v))"
      using assms by (simp add: std_move_ok ArrayPtr_def invariant_def live_def drop_take)
    have t: "int (m_size v1) - int ?n - 1 = int pos" using s1 assms by simp
    have "std_move (drop pos (live v)) 0 ?n ((m_items v1)[pos := value]) (Suc pos)
                = Inr (take pos (live v) @ value # drop pos (live v)
                       @ drop (Suc (m_size v)) (m_items v1))"
      using assms len1 lv by (simp add: std_move_ok upd Suc_diff_le)
    then have restore: "std_move (drop pos (live v)) 0 ?n ((m_items v1)[pos := value]) (pos + 1)
                = Inr (take pos (live v) @ [value] @ drop pos (live v)
                       @ drop (m_size v + 1) (m_items v1))"
      by simp
    have np: "\<not> m_size v < pos" using assms(2) by simp
    have "Insert dflt pos value v =
            Some (Inr (v1\<lparr>m_items := take pos (live v) @ [value] @ drop pos (live v)
                                  @ drop (m_size v + 1) (m_items v1)\<rparr>, pos))"
      by (simp only: Insert_def Let_def False if_False np dist tlen tmp w r t sum.case
            option.case of_nat_less_0_iff nat_int asg restore)
    then show ?thesis using r s1 i1 by simp
  qed
qed

lemma Insert_in_range:
  assumes "invariant v" "pos \<le> m_size v"
    and "m_size v - pos < 2 ^ 31" "m_size v < 2 ^ 63"
  shows "\<exists>v'. Insert dflt pos value v = Some (Inr (v', pos)) \<and> m_size v' = m_size v + 1 \<and>
      live v' = take pos (live v) @ [value] @ drop pos (live v) \<and>
      At v' pos = Inr value \<and> invariant v'"
proof -
  obtain v1 where i1: "invariant v1" and s1: "m_size v1 = m_size v + 1"
    and ins: "Insert dflt pos value v =
             Some (Inr (v1\<lparr>m_items := take pos (live v) @ [value] @ drop pos (live v)
                                  @ drop (m_size v + 1) (m_items v1)\<rparr>, pos))"
    using Insert_result [OF assms, of dflt "value"] by auto
  have lv: "length (live v) = m_size v" using assms by (simp add: live_def invariant_def)
  have len1: "m_size v + 1 \<le> length (m_items v1)" using i1 s1 by (simp add: invariant_def)
  let ?L = "take pos (live v) @ [value] @ drop pos (live v)"
  let ?R = "drop (m_size v + 1) (m_items v1)"
  let ?v' = "v1\<lparr>m_items := ?L @ ?R\<rparr>"
  have lL: "length ?L = m_size v + 1" using lv assms by simp
  have "take (length ?L) (?L @ ?R) = ?L" by (rule take_length_append)
  then have "take (m_size v + 1) (?L @ ?R) = ?L" by (simp only: lL)
  then have lv': "live ?v' = ?L" using s1 by (simp add: live_def)
  have "(?L @ ?R) ! pos = value" using lv assms by (simp add: nth_append)
  moreover have "pos < length (?L @ ?R)" using lv assms by simp
  ultimately have at: "At ?v' pos = Inr value" using s1 assms by (simp add: At_def index_op_def)
  have "length (?L @ ?R) = length ?L + length ?R" by (rule length_append)
  then have "length (?L @ ?R) = length (m_items v1)" using len1 by (simp only: lL) simp
  then have inv: "invariant ?v'" using i1 by (simp add: invariant_def)
  have "Insert dflt pos value v = Some (Inr (?v', pos))" using ins by simp
  then show ?thesis using s1 lv' at inv by (intro exI [of _ ?v']) simp
qed

text \<open>
  Within those bounds the examples of the specification come out as stated: inserting 9
  at the beginning, in the middle and at the end of \<open>{1, 2, 3}\<close>, and into the empty
  vector.
\<close>

lemma Insert_examples:
  "SimpleVector_init 0 [1, 2, 3 :: int] = Inr \<lparr>m_items = [1, 2, 3], m_size = 3, m_capacity = 3\<rparr>"
  "\<exists>v'. Insert 0 0 9 \<lparr>m_items = [1, 2, 3 :: int], m_size = 3, m_capacity = 3\<rparr> = Some (Inr (v', 0))
         \<and> live v' = [9, 1, 2, 3] \<and> m_size v' = 4"
  "\<exists>v'. Insert 0 1 9 \<lparr>m_items = [1, 2, 3 :: int], m_size = 3, m_capacity = 3\<rparr> = Some (Inr (v', 1))
         \<and> live v' = [1, 9, 2, 3] \<and> m_size v' = 4"
  "\<exists>v'. Insert 0 3 9 \<lparr>m_items = [1, 2, 3 :: int], m_size = 3, m_capacity = 3\<rparr> = Some (Inr (v', 3))
         \<and> live v' = [1, 2, 3, 9] \<and> m_size v' = 4"
  "\<exists>v'. Insert 0 0 9 (SimpleVector_default :: int SimpleVector) = Some (Inr (v', 0))
         \<and> live v' = [9] \<and> m_size v' = 1"
proof -
  let ?v = "\<lparr>m_items = [1, 2, 3 :: int], m_size = 3, m_capacity = 3\<rparr>"
  let ?e = "SimpleVector_default :: int SimpleVector"
  have i: "invariant ?v" and j: "invariant ?e"
    by (simp_all add: invariant_def SimpleVector_default_def)
  have l: "live ?v = [1, 2, 3]" and m: "live ?e = []"
    by (simp_all add: live_def SimpleVector_default_def)
  have ms: "m_size ?e = 0" by (simp add: SimpleVector_default_def)
  show "SimpleVector_init 0 [1, 2, 3 :: int] = Inr ?v"
    by (simp add: SimpleVector_init_def ArrayPtr_def numeral_3_eq_3)
  show "\<exists>v'. Insert 0 0 9 ?v = Some (Inr (v', 0)) \<and> live v' = [9, 1, 2, 3] \<and> m_size v' = 4"
    using Insert_in_range [of ?v 0 0 9, OF i] by (auto simp: l)
  show "\<exists>v'. Insert 0 1 9 ?v = Some (Inr (v', 1)) \<and> live v' = [1, 9, 2, 3] \<and> m_size v' = 4"
    using Insert_in_range [of ?v 1 0 9, OF i] by (auto simp: l)
  show "\<exists>v'. Insert 0 3 9 ?v = Some (Inr (v', 3)) \<and> live v' = [1, 2, 3, 9] \<and> m_size v' = 4"
    using Insert_in_range [of ?v 3 0 9, OF i] by (auto simp: l)
  show "\<exists>v'. Insert 0 0 9 ?e = Some (Inr (v', 0)) \<and> live v' = [9] \<and> m_size v' = 1"
    using Insert_in_range [of ?e 0 0 9, OF j] by (auto simp: m ms)
qed

lemma Erase_result:
  assumes "m_size v \<le> length (m_items v)" "pos < m_size v"
  shows "Erase pos v =
     Inr (v\<lparr>m_size := m_size v - 1,
             m_items := take pos (live v) @ drop (Suc pos) (live v)
                        @ drop (m_size v - 1) (m_items v)\<rparr>, pos)"
proof -
  let ?n = "m_size v - Suc pos"
  have "std_move_within (m_items v) (Suc pos) ?n pos =
          Inr (take pos (m_items v) @ take ?n (drop (Suc pos) (m_items v))
               @ drop (pos + ?n) (m_items v))"
    using assms by (simp add: std_move_within_ok)
  moreover have "pos + ?n = m_size v - 1" using assms by simp
  ultimately show ?thesis using assms
    by (simp add: Erase_def Let_def live_def drop_take min_def)
qed

lemma op_eq_ok:
  assumes "m_size (st lhs) \<le> length (m_items (st lhs))"
          "m_size (st rhs) \<le> length (m_items (st rhs))"
  shows "op_eq st lhs rhs =
     Inr (lhs = rhs \<or> (m_size (st lhs) = m_size (st rhs) \<and> live (st lhs) = live (st rhs)))"
  using assms by (auto simp add: op_eq_def std_equal_ok live_def)

lemma SimpleVector_size_ok:
  "SimpleVector_size dflt n = Inr \<lparr>m_items = replicate n dflt, m_size = n, m_capacity = n\<rparr>"
  by (simp add: SimpleVector_size_def SimpleVector_fill_def ArrayPtr_def std_fill_ok)

lemma SimpleVector_copy_ok:
  assumes "m_size other \<le> length (m_items other)"
  shows "SimpleVector_copy dflt other =
     Inr \<lparr>m_items = live other, m_size = m_size other, m_capacity = m_capacity other\<rparr>"
  using assms
  by (simp add: SimpleVector_copy_def SimpleVector_size_ok std_move_ok swap_def Let_def
        SimpleVector_default_def live_def)

lemma SimpleVector_copy_invariant:
  assumes "invariant other"
  shows "\<exists>t. SimpleVector_copy dflt other = Inr t \<and>
           (invariant t \<longleftrightarrow> m_size other = m_capacity other)"
  using assms by (auto simp add: SimpleVector_copy_ok invariant_def live_def)

section \<open>The class invariant under the constructors and the simple mutators\<close>

text \<open>
  Every constructor except the copy constructor establishes the invariant, and
  \<^verbatim>\<open>Resize\<close>, \<^verbatim>\<open>PushBack\<close>, \<^verbatim>\<open>PopBack\<close>, \<^verbatim>\<open>Clear\<close>, \<^verbatim>\<open>swap\<close> and move assignment keep it. The copy
  of a vector satisfies it only when the source is full (\<open>SimpleVector_copy_invariant\<close>
  above), and copy assignment installs such a copy.
\<close>

lemma invariant_default: "invariant SimpleVector_default"
  by (simp add: invariant_def SimpleVector_default_def)

lemma SimpleVector_fill_ok:
  "SimpleVector_fill dflt n x = Inr \<lparr>m_items = replicate n x, m_size = n, m_capacity = n\<rparr>"
  by (simp add: SimpleVector_fill_def ArrayPtr_def std_fill_ok)

lemma SimpleVector_init_ok:
  "SimpleVector_init dflt init = Inr \<lparr>m_items = init, m_size = length init, m_capacity = length init\<rparr>"
  by (simp add: SimpleVector_init_def ArrayPtr_def std_move_ok)

lemma SimpleVector_reserve_ok:
  "SimpleVector_reserve dflt n = Inr \<lparr>m_items = replicate n dflt, m_size = 0, m_capacity = n\<rparr>"
  by (cases "n = 0")
     (simp_all add: SimpleVector_reserve_def Reserve_noop Reserve_grow SimpleVector_default_def)

lemma constructors_invariant:
  "invariant \<lparr>m_items = replicate n x, m_size = n, m_capacity = n\<rparr>"
  "invariant \<lparr>m_items = init, m_size = length init, m_capacity = length init\<rparr>"
  "invariant \<lparr>m_items = replicate n dflt, m_size = 0, m_capacity = n\<rparr>"
  by (simp_all add: invariant_def)

lemma PushBack_invariant:
  assumes "invariant v" "m_size v < 2 ^ 63"
  shows "\<exists>v'. PushBack dflt item v = Some (Inr v') \<and> invariant v' \<and> live v' = live v @ [item]"
proof -
  have fits: "m_size v + 1 \<le> m_capacity v \<or> m_size v + 1 \<le> 2 ^ 63" using assms(2) by simp
  have w: "size_t (m_size v + 1) = m_size v + 1" using assms(2) by (simp add: size_t_id)
  obtain v1 where r: "Resize dflt (m_size v + 1) v = Some (Inr v1)"
    and s1: "m_size v1 = m_size v + 1" and i1: "invariant v1"
    and t1: "take (m_size v + 1) (m_items v1) = live v @ replicate (m_size v + 1 - m_size v) dflt"
    using Resize_up [OF assms(1) _ fits, of dflt] by auto
  have lv: "length (live v) = m_size v" using assms by (simp add: live_def invariant_def)
  have len1: "m_size v < length (m_items v1)" using i1 s1 by (simp add: invariant_def)
  have "take (m_size v + 1) ((m_items v1)[m_size v := item])
          = (take (m_size v + 1) (m_items v1))[m_size v := item]"
    by (simp add: take_update_swap)
  also have "\<dots> = (live v @ [dflt])[length (live v) := item]" by (simp only: t1 lv) simp
  also have "\<dots> = live v @ [item]" by simp
  finally have "live (v1\<lparr>m_items := (m_items v1)[m_size v := item]\<rparr>) = live v @ [item]"
    using s1 by (simp add: live_def)
  then show ?thesis using r s1 i1 len1 w
    by (simp add: PushBack_def assign_at_ok invariant_def)
qed


lemma PopBack_invariant:
  "invariant v \<Longrightarrow> 0 < m_size v \<Longrightarrow>
   \<exists>v'. PopBack v = Inr v' \<and> invariant v' \<and> live v' = butlast (live v)"
  by (auto simp add: PopBack_def invariant_def live_def butlast_take)

lemma Clear_invariant: "invariant v \<Longrightarrow> invariant (Clear v) \<and> m_size (Clear v) = 0"
  by (simp add: Clear_def invariant_def)

lemma swap_exchanges: "swap (a, b) = (b, a)"
  by (simp add: swap_def)

lemma move_assign_invariant:
  assumes "invariant (st this)" "m_size (st rhs) \<le> length (m_items (st rhs))"
    and "this \<noteq> rhs" "\<not> (m_size (st this) = m_size (st rhs) \<and> live (st this) = live (st rhs))"
    and "m_size (st rhs) \<le> m_capacity (st this) \<or> m_size (st rhs) \<le> 2 ^ 63"
  shows "\<exists>st'. move_assign dflt moved this rhs st = Some (Inr st') \<and> invariant (st' this) \<and>
           live (st' this) = live (st rhs) \<and>
           st' rhs = (st rhs)\<lparr>m_items := map moved (live (st rhs))
                                        @ drop (m_size (st rhs)) (m_items (st rhs))\<rparr>"
proof -
  have inv: "invariant (st this)" by (rule assms(1))
  have bnd: "m_size (st this) \<le> length (m_items (st this))"
    using inv by (simp add: invariant_def)
  have ne: "op_neq st this rhs = Inr True"
    using assms(3,4) by (simp only: op_neq_def op_eq_ok [OF bnd assms(2)]) simp
  obtain v1 where r: "Resize dflt (m_size (st rhs)) (st this) = Some (Inr v1)"
    and s1: "m_size v1 = m_size (st rhs)" and i1: "invariant v1"
    using Resize_total [OF inv assms(5), of dflt] by auto
  have len1: "m_size (st rhs) \<le> length (m_items v1)" using i1 s1 by (simp add: invariant_def)
  let ?src = "map moved (live (st rhs)) @ drop (m_size (st rhs)) (m_items (st rhs))"
  let ?buf = "live (st rhs) @ drop (m_size (st rhs)) (m_items v1)"
  have mv: "std_move_from moved (m_items (st rhs)) 0 (m_size (st rhs)) (m_items v1) 0
              = Inr (?src, ?buf)"
    using assms(2) len1 by (simp add: std_move_from_ok live_def)
  have ll: "length (live (st rhs)) = m_size (st rhs)" using assms(2) by (simp add: live_def)
  have lv: "live (v1\<lparr>m_items := ?buf\<rparr>) = live (st rhs)"
    using s1 ll by (simp add: live_def [of "v1\<lparr>m_items := ?buf\<rparr>"])
  have iv: "invariant (v1\<lparr>m_items := ?buf\<rparr>)" using i1 s1 len1 ll by (simp add: invariant_def)
  have "move_assign dflt moved this rhs st =
          Some (Inr (st(this := v1, rhs := (st rhs)\<lparr>m_items := ?src\<rparr>,
                        this := v1\<lparr>m_items := ?buf\<rparr>)))"
    using assms(3) by (simp add: move_assign_def ne r Let_def mv)
  then show ?thesis using lv iv assms(3) by simp
qed


lemma copy_assign_result:
  assumes "m_size (st this) \<le> length (m_items (st this))"
          "m_size (st rhs) \<le> length (m_items (st rhs))"
    and "this \<noteq> rhs" "\<not> (m_size (st this) = m_size (st rhs) \<and> live (st this) = live (st rhs))"
  shows "copy_assign dflt this rhs st =
     Inr (st(this := \<lparr>m_items = live (st rhs), m_size = m_size (st rhs),
                       m_capacity = m_capacity (st rhs)\<rparr>))"
proof -
  have ne: "op_neq st this rhs = Inr True"
    using assms(3,4) by (simp only: op_neq_def op_eq_ok [OF assms(1,2)]) simp
  show ?thesis by (simp add: copy_assign_def ne SimpleVector_copy_ok [OF assms(2)] swap_exchanges)
qed

section \<open>The claims of the specification\<close>

text \<open>
  Claim C1, as amended. The code does not make self-assignment a no-op: both assignment
  operators start with \<^verbatim>\<open>assert(*this != rhs)\<close>, and \<^verbatim>\<open>operator==\<close> answers true for one
  and the same object. For every store, every object and either operator, assigning the
  object to itself fails that assertion, before any member has been read or written.
\<close>

theorem self_assignment_asserts:
  "copy_assign dflt this this st = Inl AssertionFailed \<and>
   move_assign dflt moved this this st = Some (Inl AssertionFailed)"
  by (simp add: copy_assign_def move_assign_def op_neq_def op_eq_def)

text \<open>
  Claim C1 as it was stated (self-assignment returns normally and leaves the vector as
  it was) fails for the vector \<open>{1, 2, 3}\<close> at address 0.
\<close>

theorem self_assignment_counterexample:
  "copy_assign (0::int) 0 0 (empty_store(0 := \<lparr>m_items = [1, 2, 3], m_size = 3, m_capacity = 3\<rparr>))
     = Inl AssertionFailed \<and>
   move_assign (0::int) id 0 0 (empty_store(0 := \<lparr>m_items = [1, 2, 3], m_size = 3, m_capacity = 3\<rparr>))
     = Some (Inl AssertionFailed) \<and>
   copy_assign (0::int) 0 0 (empty_store(0 := \<lparr>m_items = [1, 2, 3], m_size = 3, m_capacity = 3\<rparr>))
     \<noteq> Inr (empty_store(0 := \<lparr>m_items = [1, 2, 3], m_size = 3, m_capacity = 3\<rparr>)) \<and>
   move_assign (0::int) id 0 0 (empty_store(0 := \<lparr>m_items = [1, 2, 3], m_size = 3, m_capacity = 3\<rparr>))
     \<noteq> Some (Inr (empty_store(0 := \<lparr>m_items = [1, 2, 3], m_size = 3, m_capacity = 3\<rparr>)))"
  by (simp add: copy_assign_def move_assign_def op_neq_def op_eq_def)

text \<open>
  Claim C2: copy construction allocates a buffer of the source's capacity, and the copy
  can be mutated without harm. The code allocates \<^verbatim>\<open>other.GetSize()\<close> slots and then
  overwrites \<^verbatim>\<open>capacity_\<close> with the source's capacity. For \<open>{1, 2}\<close> after \<^verbatim>\<open>PopBack\<close>
  (size 1, capacity 2) the copy owns one slot and reports capacity 2, and \<^verbatim>\<open>PushBack\<close> on
  the copy writes its second element past the end of that buffer.
\<close>

theorem copy_construct_short_buffer:
  "(case SimpleVector_init 0 [1, 2 :: int] of Inl e \<Rightarrow> Inl e | Inr a \<Rightarrow> PopBack a)
     = Inr \<lparr>m_items = [1, 2], m_size = 1, m_capacity = 2\<rparr> \<and>
   SimpleVector_copy 0 \<lparr>m_items = [1, 2 :: int], m_size = 1, m_capacity = 2\<rparr>
     = Inr \<lparr>m_items = [1], m_size = 1, m_capacity = 2\<rparr> \<and>
   PushBack 0 4 \<lparr>m_items = [1 :: int], m_size = 1, m_capacity = 2\<rparr>
     = Some (Inl UndefinedBehaviour)"
proof -
  have a: "(case SimpleVector_init 0 [1, 2 :: int] of Inl e \<Rightarrow> Inl e | Inr a \<Rightarrow> PopBack a)
             = Inr \<lparr>m_items = [1, 2], m_size = 1, m_capacity = 2\<rparr>"
    by (simp add: SimpleVector_init_ok PopBack_def)
  have b: "SimpleVector_copy 0 \<lparr>m_items = [1, 2 :: int], m_size = 1, m_capacity = 2\<rparr>
             = Inr \<lparr>m_items = [1], m_size = 1, m_capacity = 2\<rparr>"
    by (simp add: SimpleVector_copy_ok live_def)
  have c: "PushBack 0 4 \<lparr>m_items = [1 :: int], m_size = 1, m_capacity = 2\<rparr>
             = Some (Inl UndefinedBehaviour)"
    by (simp add: PushBack_def Resize_def size_t_def)
  show ?thesis using a b c by simp
qed

text \<open>
  Claim C3, as amended: the three cases of \<^verbatim>\<open>Resize\<close>, for a vector that satisfies the
  class invariant. If \<open>new_size\<close> is at most the capacity, or at most \<open>2^63\<close>, the call
  returns a vector of size \<open>new_size\<close> that satisfies the invariant again, and
  \<^item> if \<open>new_size \<le> size\<close>, buffer and capacity are untouched, so the elements
    \<open>[0, new_size)\<close> are the old ones;
  \<^item> if \<open>size < new_size \<le> capacity\<close>, the capacity is unchanged and exactly the slots
    \<open>[size, new_size)\<close> are overwritten with the default value;
  \<^item> if \<open>capacity < new_size \<le> 2^63\<close>, the loop ends with the capacity that the
    specification's doubling rule gives, the buffer has that length, and it holds the old
    live elements in order followed by default values.
\<close>

theorem Resize_three_cases:
  assumes "invariant v" "new_size \<le> m_capacity v \<or> new_size \<le> 2 ^ 63"
  shows "\<exists>v'. Resize dflt new_size v = Some (Inr v') \<and> m_size v' = new_size \<and> invariant v' \<and>
     (new_size \<le> m_size v \<longrightarrow>
        m_items v' = m_items v \<and> m_capacity v' = m_capacity v \<and>
        live v' = take new_size (live v)) \<and>
     (m_size v < new_size \<and> new_size \<le> m_capacity v \<longrightarrow>
        m_capacity v' = m_capacity v \<and>
        m_items v' = take (m_size v) (m_items v) @ replicate (new_size - m_size v) dflt
                       @ drop new_size (m_items v) \<and>
        live v' = live v @ replicate (new_size - m_size v) dflt) \<and>
     (m_capacity v < new_size \<longrightarrow>
        m_capacity v' = spec_grow new_size (m_capacity v) \<and>
        grow_capacity new_size (m_capacity v) = Some (m_capacity v') \<and>
        m_items v' = live v @ replicate (m_capacity v' - m_size v) dflt \<and>
        live v' = live v @ replicate (new_size - m_size v) dflt)"
proof -
  consider (shrink) "new_size \<le> m_size v"
    | (within) "m_size v < new_size" "new_size \<le> m_capacity v"
    | (grow) "m_capacity v < new_size"
    by fastforce
  then show ?thesis
  proof cases
    case shrink
    then show ?thesis using assms(1)
      by (simp add: Resize_shrink invariant_def live_def min_def)
  next
    case within
    then show ?thesis using assms(1)
      by (simp add: Resize_within invariant_def live_def)
  next
    case grow
    then have small: "new_size \<le> 2 ^ 63" using assms(2) by simp
    have "new_size \<le> spec_grow new_size (m_capacity v)" by (rule spec_grow_ge)
    then show ?thesis using grow assms(1)
      by (simp add: Resize_grow [OF grow small] grow_capacity_spec [OF grow small]
            invariant_def live_def)
  qed
qed

theorem Resize_three_cases_witness:
  "invariant \<lparr>m_items = [1, 2, 3, 0 :: int], m_size = 3, m_capacity = 4\<rparr> \<and>
   Resize 0 2 \<lparr>m_items = [1, 2, 3, 0 :: int], m_size = 3, m_capacity = 4\<rparr>
     = Some (Inr \<lparr>m_items = [1, 2, 3, 0], m_size = 2, m_capacity = 4\<rparr>) \<and>
   Resize 0 4 \<lparr>m_items = [1, 2, 3, 7 :: int], m_size = 3, m_capacity = 4\<rparr>
     = Some (Inr \<lparr>m_items = [1, 2, 3, 0], m_size = 4, m_capacity = 4\<rparr>) \<and>
   Resize 0 9 \<lparr>m_items = [1, 2, 3, 7 :: int], m_size = 3, m_capacity = 4\<rparr>
     = Some (Inr \<lparr>m_items = [1, 2, 3] @ replicate 13 0, m_size = 9,
            m_capacity = 16\<rparr>) \<and>
   spec_grow 9 4 = 16"
proof -
  let ?v = "\<lparr>m_items = [1, 2, 3, 0 :: int], m_size = 3, m_capacity = 4\<rparr>"
  let ?w = "\<lparr>m_items = [1, 2, 3, 7 :: int], m_size = 3, m_capacity = 4\<rparr>"
  have iv: "invariant ?v" and iw: "invariant ?w" by (simp_all add: invariant_def)
  have b2: "2 \<le> m_capacity ?v \<or> (2::nat) \<le> 2 ^ 63"
    and b4: "4 \<le> m_capacity ?w \<or> (4::nat) \<le> 2 ^ 63"
    and b9: "9 \<le> m_capacity ?w \<or> (9::nat) \<le> 2 ^ 63" by simp_all
  have a: "Resize 0 2 ?v = Some (Inr \<lparr>m_items = [1, 2, 3, 0], m_size = 2, m_capacity = 4\<rparr>)"
    using Resize_three_cases [OF iv b2, of 0] by auto
  have b: "Resize 0 4 ?w = Some (Inr \<lparr>m_items = [1, 2, 3, 0], m_size = 4, m_capacity = 4\<rparr>)"
    using Resize_three_cases [OF iw b4, of 0] by auto
  have g: "spec_grow 9 4 = 16" by code_simp
  have c: "Resize 0 9 ?w = Some (Inr \<lparr>m_items = [1, 2, 3] @ replicate 13 0,
             m_size = 9, m_capacity = 16\<rparr>)"
    using Resize_three_cases [OF iw b9, of 0] by (cases rule: exE) (auto simp: g live_def)
  show ?thesis using iv a b c g by simp
qed

text \<open>
  Claim C3 as it was stated, for every \<open>new_size\<close>, fails on the empty vector at
  \<open>new_size = 2^63 + 1\<close>: the capacity runs through \<open>1, 2, 4, \<dots>, 2^63\<close>, the next doubling
  wraps to 0, and the loop starts again. The call never returns.
\<close>

theorem Resize_never_returns:
  "Resize (0 :: int) (2 ^ 63 + 1) SimpleVector_default = None"
proof -
  have "grow_capacity (2 ^ 63 + 1) 0 = None"
    by (rule grow_capacity_diverges) simp_all
  then show ?thesis
    by (intro Resize_diverges) (simp_all add: SimpleVector_default_def)
qed

text \<open>
  Claim C4: \<^verbatim>\<open>At\<close> reports out-of-range exactly when \<open>index \<ge> size\<close>, in particular for
  every index of an empty vector, and below \<open>size\<close> it returns what \<^verbatim>\<open>operator[]\<close> returns:
  the live element at that index.
\<close>

theorem At_checked:
  "(At v index = Inl OutOfRange \<longleftrightarrow> index \<ge> m_size v) \<and>
   (m_size v = 0 \<longrightarrow> At v index = Inl OutOfRange) \<and>
   (index < m_size v \<longrightarrow> At v index = index_op v index) \<and>
   (index < m_size v \<and> m_size v \<le> length (m_items v) \<longrightarrow>
      At v index = Inr (live v ! index))"
  by (simp add: At_def index_op_def live_def)

theorem At_checked_witness:
  "At \<lparr>m_items = [5, 6, 7 :: int], m_size = 2, m_capacity = 3\<rparr> 1 = Inr 6 \<and>
   index_op \<lparr>m_items = [5, 6, 7 :: int], m_size = 2, m_capacity = 3\<rparr> 1 = Inr 6 \<and>
   At \<lparr>m_items = [5, 6, 7 :: int], m_size = 2, m_capacity = 3\<rparr> 2 = Inl OutOfRange \<and>
   At (SimpleVector_default :: int SimpleVector) 0 = Inl OutOfRange"
proof -
  let ?v = "\<lparr>m_items = [5, 6, 7 :: int], m_size = 2, m_capacity = 3\<rparr>"
  have a: "At ?v 1 = Inr 6"
    using At_checked [of ?v 1, THEN conjunct2, THEN conjunct2, THEN conjunct2]
    by (simp add: live_def)
  have b: "index_op ?v 1 = Inr 6"
    using At_checked [of ?v 1, THEN conjunct2, THEN conjunct2, THEN conjunct1] a by simp
  have c: "At ?v 2 = Inl OutOfRange" using At_checked [of ?v 2] by simp
  have d: "At (SimpleVector_default :: int SimpleVector) 0 = Inl OutOfRange"
    using At_checked [of "SimpleVector_default :: int SimpleVector" 0]
    by (simp add: SimpleVector_default_def)
  show ?thesis using a b c d by simp
qed

text \<open>
  Claim C5: \<^verbatim>\<open>Insert\<close> works at every position of every vector. The code keeps the number
  of elements from the position to the end in an \<^verbatim>\<open>int\<close>. For the vector of \<open>2^32\<close> zeros
  built by \<^verbatim>\<open>SimpleVector<int> v(4294967296)\<close> and the position \<^verbatim>\<open>begin()\<close>, that number is
  \<open>2^32\<close> and \<^verbatim>\<open>dist\<close> is 0: the staging buffer \<^verbatim>\<open>temp\<close> has no slots, and moving the
  elements into it writes outside of it.
\<close>

theorem Insert_int_dist_overflow:
  "SimpleVector_size (0 :: int) (2 ^ 32)
     = Inr \<lparr>m_items = replicate (2 ^ 32) 0, m_size = 2 ^ 32, m_capacity = 2 ^ 32\<rparr> \<and>
   invariant \<lparr>m_items = replicate (2 ^ 32) (0 :: int), m_size = 2 ^ 32, m_capacity = 2 ^ 32\<rparr> \<and>
   int32 (int (2 ^ 32) - int 0) = 0 \<and>
   Insert 0 0 9 \<lparr>m_items = replicate (2 ^ 32) (0 :: int), m_size = 2 ^ 32, m_capacity = 2 ^ 32\<rparr>
     = Some (Inl UndefinedBehaviour)"
proof -
  let ?v = "\<lparr>m_items = replicate (2 ^ 32) (0 :: int), m_size = 2 ^ 32, m_capacity = 2 ^ 32\<rparr>"
  have a: "SimpleVector_size (0 :: int) (2 ^ 32) = Inr ?v" by (rule SimpleVector_size_ok)
  have b: "invariant ?v" by (simp add: invariant_def)
  have c: "int32 (int (2 ^ 32) - int 0) = 0" by (simp add: int32_def)
  have d: "std_move (m_items ?v) 0 (m_size ?v - 0) (ArrayPtr 0 (size_t_of_int 0)) 0
             = Inl UndefinedBehaviour"
    by (rule std_move_overflow) (simp_all add: ArrayPtr_def size_t_of_int_def)
  have "Insert 0 0 9 ?v = Some (Inl UndefinedBehaviour)"
    unfolding Insert_def Let_def using c d by simp
  then show ?thesis using a b c by simp
qed

text \<open>
  Claim C6: \<^verbatim>\<open>Erase\<close> asserts \<open>size > 0\<close>. At a live position of a vector that satisfies
  the class invariant it removes that element, keeps the others in order, decrements the
  size and keeps the capacity; the returned iterator is the position, which now holds the
  element that followed the erased one, or is the new \<^verbatim>\<open>end()\<close> if there was none.
\<close>

theorem Erase_spec:
  "(m_size v = 0 \<longrightarrow> Erase pos v = Inl AssertionFailed) \<and>
   (invariant v \<and> pos < m_size v \<longrightarrow>
     (\<exists>v'. Erase pos v = Inr (v', pos) \<and> m_size v' = m_size v - 1 \<and>
        m_capacity v' = m_capacity v \<and>
        live v' = take pos (live v) @ drop (Suc pos) (live v) \<and>
        (Suc pos < m_size v \<longrightarrow> At v' pos = At v (Suc pos)) \<and>
        (Suc pos = m_size v \<longrightarrow> pos = m_size v') \<and>
        invariant v'))"
proof (intro conjI impI)
  assume "m_size v = 0"
  then show "Erase pos v = Inl AssertionFailed" by (simp add: Erase_def)
next
  assume a: "invariant v \<and> pos < m_size v"
  then have b: "m_size v \<le> length (m_items v)" "pos < m_size v" by (simp_all add: invariant_def)
  have lv: "length (live v) = m_size v" using b by (simp add: live_def)
  have nth: "Suc pos < m_size v \<Longrightarrow> live v ! Suc pos = m_items v ! Suc pos"
    by (simp add: live_def)
  show "\<exists>v'. Erase pos v = Inr (v', pos) \<and> m_size v' = m_size v - 1 \<and>
        m_capacity v' = m_capacity v \<and>
        live v' = take pos (live v) @ drop (Suc pos) (live v) \<and>
        (Suc pos < m_size v \<longrightarrow> At v' pos = At v (Suc pos)) \<and>
        (Suc pos = m_size v \<longrightarrow> pos = m_size v') \<and>
        invariant v'"
    using a b lv nth
    by (auto simp add: Erase_result live_def [of "v\<lparr>m_size := _, m_items := _\<rparr>"]
          At_def index_op_def invariant_def nth_append)
qed

text \<open>Erasing at \<^verbatim>\<open>begin()\<close> and at \<^verbatim>\<open>end() - 1\<close> of \<open>{1, 2, 3}\<close>, and from the empty vector.\<close>

theorem Erase_spec_witness:
  "(\<exists>v'. Erase 0 \<lparr>m_items = [1, 2, 3 :: int], m_size = 3, m_capacity = 3\<rparr> = Inr (v', 0)
         \<and> live v' = [2, 3] \<and> m_size v' = 2 \<and> At v' 0 = Inr 2) \<and>
   (\<exists>v'. Erase 2 \<lparr>m_items = [1, 2, 3 :: int], m_size = 3, m_capacity = 3\<rparr> = Inr (v', 2)
         \<and> live v' = [1, 2] \<and> m_size v' = 2) \<and>
   Erase 0 (SimpleVector_default :: int SimpleVector) = Inl AssertionFailed"
proof -
  let ?v = "\<lparr>m_items = [1, 2, 3 :: int], m_size = 3, m_capacity = 3\<rparr>"
  let ?e = "SimpleVector_default :: int SimpleVector"
  have i: "invariant ?v" by (simp add: invariant_def)
  have l: "live ?v = [1, 2, 3]" by (simp add: live_def)
  have at1: "At ?v (Suc 0) = Inr 2" by (simp add: At_def index_op_def)
  have a: "\<exists>v'. Erase 0 ?v = Inr (v', 0) \<and> live v' = [2, 3] \<and> m_size v' = 2 \<and> At v' 0 = Inr 2"
    using Erase_spec [of ?v 0] i by (auto simp: l at1)
  have b: "\<exists>v'. Erase 2 ?v = Inr (v', 2) \<and> live v' = [1, 2] \<and> m_size v' = 2"
    using Erase_spec [of ?v 2] i by (auto simp: l)
  have c: "Erase 0 ?e = Inl AssertionFailed"
    using Erase_spec [of ?e 0] by (simp add: SimpleVector_default_def)
  show ?thesis using a b c by simp
qed

text \<open>
  Claim C7: \<^verbatim>\<open>Reserve\<close> on a vector that satisfies the class invariant never changes the
  size or the live elements. With \<open>new_capacity \<le> capacity\<close> it changes nothing at all;
  otherwise the new buffer has exactly \<open>new_capacity\<close> slots, and every slot from the old
  capacity on holds the default value.
\<close>

theorem Reserve_spec:
  assumes "invariant v"
  shows "\<exists>v'. Reserve dflt new_capacity v = Inr v' \<and> m_size v' = m_size v \<and>
     live v' = live v \<and> invariant v' \<and>
     (new_capacity \<le> m_capacity v \<longrightarrow> v' = v) \<and>
     (m_capacity v < new_capacity \<longrightarrow>
        m_capacity v' = new_capacity \<and> length (m_items v') = new_capacity \<and>
        drop (m_capacity v) (m_items v') = replicate (new_capacity - m_capacity v) dflt)"
proof (cases "new_capacity \<le> m_capacity v")
  case True
  then show ?thesis using assms by (simp add: Reserve_noop)
next
  case False
  then show ?thesis using assms
    by (simp add: Reserve_grow invariant_def live_def)
qed

theorem Reserve_spec_witness:
  "Reserve 0 2 \<lparr>m_items = [1, 2, 3 :: int], m_size = 3, m_capacity = 3\<rparr>
     = Inr \<lparr>m_items = [1, 2, 3], m_size = 3, m_capacity = 3\<rparr> \<and>
   (\<exists>v'. Reserve 0 5 \<lparr>m_items = [1, 2, 3 :: int], m_size = 3, m_capacity = 3\<rparr> = Inr v' \<and>
      m_size v' = 3 \<and> m_capacity v' = 5 \<and> live v' = [1, 2, 3] \<and> drop 3 (m_items v') = [0, 0])"
proof -
  let ?v = "\<lparr>m_items = [1, 2, 3 :: int], m_size = 3, m_capacity = 3\<rparr>"
  have i: "invariant ?v" by (simp add: invariant_def)
  have l: "live ?v = [1, 2, 3]" by (simp add: live_def)
  have a: "Reserve 0 2 ?v = Inr ?v"
    using Reserve_spec [OF i, where new_capacity = 2 and dflt = 0] by auto
  have b: "\<exists>v'. Reserve 0 5 ?v = Inr v' \<and> m_size v' = 3 \<and> m_capacity v' = 5 \<and>
              live v' = [1, 2, 3] \<and> drop 3 (m_items v') = [0, 0]"
    using Reserve_spec [OF i, where new_capacity = 5 and dflt = 0]
    by (auto simp: l numeral_2_eq_2)
  show ?thesis using a b by simp
qed

text \<open>
  Claim C8: move construction. The new object has the buffer, size and capacity of the
  source; the source is left as a default-constructed vector (no buffer, size 0,
  capacity 0), which satisfies the class invariant and can be used again, for instance by
  \<^verbatim>\<open>PushBack\<close>.
\<close>

theorem move_construct:
  "fst (SimpleVector_move s) = s \<and>
   snd (SimpleVector_move s) = SimpleVector_default \<and>
   m_size (snd (SimpleVector_move s)) = 0 \<and>
   m_capacity (snd (SimpleVector_move s)) = 0 \<and>
   invariant (snd (SimpleVector_move s)) \<and>
   PushBack dflt x (snd (SimpleVector_move s))
     = Some (Inr \<lparr>m_items = [x], m_size = 1, m_capacity = 1\<rparr>)"
  apply (simp add: SimpleVector_move_def Let_def swap_def SimpleVector_default_def invariant_def)
  apply (simp add: PushBack_def Resize_def size_t_def grow_capacity.simps ArrayPtr_def
           assign_at_def)
  done

text \<open>
  Claim C9: the class invariant is preserved by every public operation. The copy
  constructor breaks it whenever the source has spare capacity, and with it copy
  assignment: the vector built by \<^verbatim>\<open>SimpleVector(Reserve(3))\<close> and \<^verbatim>\<open>PushBack(7)\<close> satisfies the
  invariant, its copy owns a buffer of one slot with \<^verbatim>\<open>capacity_\<close> 3.
\<close>

theorem copy_breaks_invariant:
  "(case SimpleVector_reserve 0 3 of Inl e \<Rightarrow> Some (Inl e) | Inr a \<Rightarrow> PushBack 0 (7 :: int) a)
     = Some (Inr \<lparr>m_items = [7, 0, 0], m_size = 1, m_capacity = 3\<rparr>) \<and>
   invariant \<lparr>m_items = [7, 0, 0 :: int], m_size = 1, m_capacity = 3\<rparr> \<and>
   SimpleVector_copy 0 \<lparr>m_items = [7, 0, 0 :: int], m_size = 1, m_capacity = 3\<rparr>
     = Inr \<lparr>m_items = [7], m_size = 1, m_capacity = 3\<rparr> \<and>
   \<not> invariant \<lparr>m_items = [7 :: int], m_size = 1, m_capacity = 3\<rparr> \<and>
   copy_assign 0 0 1
       (empty_store(1 := \<lparr>m_items = [7, 0, 0 :: int], m_size = 1, m_capacity = 3\<rparr>))
     = Inr (empty_store(1 := \<lparr>m_items = [7, 0, 0 :: int], m_size = 1, m_capacity = 3\<rparr>,
                        0 := \<lparr>m_items = [7], m_size = 1, m_capacity = 3\<rparr>))"
proof -
  have a: "(case SimpleVector_reserve 0 3 of Inl e \<Rightarrow> Some (Inl e)
            | Inr a \<Rightarrow> PushBack 0 (7 :: int) a)
             = Some (Inr \<lparr>m_items = [7, 0, 0], m_size = 1, m_capacity = 3\<rparr>)"
    by (simp add: SimpleVector_reserve_ok PushBack_def Resize_def size_t_def assign_at_def
          numeral_3_eq_3)
  have b: "invariant \<lparr>m_items = [7, 0, 0 :: int], m_size = 1, m_capacity = 3\<rparr> \<and>
     SimpleVector_copy 0 \<lparr>m_items = [7, 0, 0 :: int], m_size = 1, m_capacity = 3\<rparr>
       = Inr \<lparr>m_items = [7], m_size = 1, m_capacity = 3\<rparr> \<and>
     \<not> invariant \<lparr>m_items = [7 :: int], m_size = 1, m_capacity = 3\<rparr> \<and>
     copy_assign 0 0 1
         (empty_store(1 := \<lparr>m_items = [7, 0, 0 :: int], m_size = 1, m_capacity = 3\<rparr>))
       = Inr (empty_store(1 := \<lparr>m_items = [7, 0, 0 :: int], m_size = 1, m_capacity = 3\<rparr>,
                          0 := \<lparr>m_items = [7], m_size = 1, m_capacity = 3\<rparr>))"
    by (simp add: ArrayPtr_def SimpleVector_copy_def
          SimpleVector_size_def SimpleVector_fill_def swap_def SimpleVector_default_def
          invariant_def copy_assign_def op_neq_def op_eq_def empty_store_def)
  show ?thesis using a b by simp
qed

text \<open>
  Claim C10: both assignment operators assert \<^verbatim>\<open>*this != rhs\<close>. Whenever the two operands
  are the same object, or two objects with the same size and equal live elements, either
  assignment fails the assertion; an assignment that returns normally had operands that
  differ in value. The size of each operand is assumed to lie within its buffer, which
  \<^verbatim>\<open>std::equal\<close> needs to read the elements.
\<close>

theorem assignment_asserts_difference:
  assumes "m_size (st this) \<le> length (m_items (st this))"
          "m_size (st rhs) \<le> length (m_items (st rhs))"
  shows "((this = rhs \<or> (m_size (st this) = m_size (st rhs) \<and> live (st this) = live (st rhs)))
           \<longrightarrow> copy_assign dflt this rhs st = Inl AssertionFailed \<and>
               move_assign dflt moved this rhs st = Some (Inl AssertionFailed)) \<and>
         (\<forall>st'. copy_assign dflt this rhs st = Inr st' \<or>
               move_assign dflt moved this rhs st = Some (Inr st')
           \<longrightarrow> this \<noteq> rhs \<and>
               \<not> (m_size (st this) = m_size (st rhs) \<and> live (st this) = live (st rhs)))"
proof -
  let ?eq = "this = rhs \<or> (m_size (st this) = m_size (st rhs) \<and> live (st this) = live (st rhs))"
  have ne: "op_neq st this rhs = Inr (\<not> ?eq)"
    by (simp only: op_neq_def op_eq_ok [OF assms]) simp
  have a: "?eq \<Longrightarrow> copy_assign dflt this rhs st = Inl AssertionFailed"
    by (simp only: copy_assign_def ne) simp
  have b: "?eq \<Longrightarrow> move_assign dflt moved this rhs st = Some (Inl AssertionFailed)"
    by (simp only: move_assign_def ne) simp
  show ?thesis using a b by (intro conjI impI allI) auto
qed

theorem assignment_asserts_difference_witness:
  "copy_assign 0 0 1
     (empty_store(0 := \<lparr>m_items = [1, 2 :: int], m_size = 2, m_capacity = 2\<rparr>,
                  1 := \<lparr>m_items = [1, 2, 0, 0], m_size = 2, m_capacity = 4\<rparr>))
     = Inl AssertionFailed \<and>
   move_assign 0 id 0 1
     (empty_store(0 := \<lparr>m_items = [1, 2 :: int], m_size = 2, m_capacity = 2\<rparr>,
                  1 := \<lparr>m_items = [1, 2, 0, 0], m_size = 2, m_capacity = 4\<rparr>))
     = Some (Inl AssertionFailed) \<and>
   copy_assign 0 0 1
     (empty_store(0 := \<lparr>m_items = [1, 2 :: int], m_size = 2, m_capacity = 2\<rparr>,
                  1 := \<lparr>m_items = [5], m_size = 1, m_capacity = 1\<rparr>))
     = Inr (empty_store(0 := \<lparr>m_items = [1, 2 :: int], m_size = 2, m_capacity = 2\<rparr>,
                        1 := \<lparr>m_items = [5], m_size = 1, m_capacity = 1\<rparr>,
                        0 := \<lparr>m_items = [5], m_size = 1, m_capacity = 1\<rparr>)) \<and>
   live \<lparr>m_items = [1, 2 :: int], m_size = 2, m_capacity = 2\<rparr>
     \<noteq> live \<lparr>m_items = [5], m_size = 1, m_capacity = 1\<rparr>"
proof -
  let ?a = "\<lparr>m_items = [1, 2 :: int], m_size = 2, m_capacity = 2\<rparr>"
  let ?b = "\<lparr>m_items = [1, 2, 0, 0 :: int], m_size = 2, m_capacity = 4\<rparr>"
  let ?c = "\<lparr>m_items = [5 :: int], m_size = 1, m_capacity = 1\<rparr>"
  let ?st = "empty_store(0 := ?a, 1 := ?b)"
  let ?st2 = "empty_store(0 := ?a, 1 := ?c)"
  have b0: "m_size (?st 0) \<le> length (m_items (?st 0))" by simp
  have b1: "m_size (?st 1) \<le> length (m_items (?st 1))" by simp
  have c0: "m_size (?st2 0) \<le> length (m_items (?st2 0))" by simp
  have c1: "m_size (?st2 1) \<le> length (m_items (?st2 1))" by simp
  have eqv: "live (?st 0) = live (?st 1)" by (simp add: live_def)
  have fail: "copy_assign 0 0 1 ?st = Inl AssertionFailed \<and>
              move_assign 0 id 0 1 ?st = Some (Inl AssertionFailed)"
  proof -
    have "(0::nat) = 1 \<or> (m_size (?st 0) = m_size (?st 1) \<and> live (?st 0) = live (?st 1))"
      using eqv by simp
    then show ?thesis
      by (rule assignment_asserts_difference [OF b0 b1, of 0 id, THEN conjunct1, THEN mp])
  qed
  have run: "copy_assign 0 0 1 ?st2 = Inr (?st2(0 := ?c))"
    by (simp add: copy_assign_def op_neq_def op_eq_def SimpleVector_copy_def
          SimpleVector_size_def SimpleVector_fill_def ArrayPtr_def swap_def
          SimpleVector_default_def)
  have "copy_assign 0 0 1 ?st2 = Inr (?st2(0 := ?c)) \<or>
        move_assign 0 id 0 1 ?st2 = Some (Inr (?st2(0 := ?c)))
          \<longrightarrow> (0::nat) \<noteq> 1 \<and> \<not> (m_size (?st2 0) = m_size (?st2 1) \<and> live (?st2 0) = live (?st2 1))"
    using assignment_asserts_difference [OF c0 c1, of 0 id, THEN conjunct2] by (rule spec)
  then have "\<not> (m_size (?st2 0) = m_size (?st2 1) \<and> live (?st2 0) = live (?st2 1))"
    using run by (simp only: simp_thms)
  then have "live ?a \<noteq> live ?c" by (simp add: live_def)
  then show ?thesis using fail run by (simp only: simp_thms)
qed

end
